theory Spec2Isabelle
  imports Main "HOL-Library.AList"
begin

section \<open>JavaScript strings\<close>

text \<open>
  Strings are lists of code units below 256, read as the first 256 code points of Unicode
  (ASCII and Latin-1). \<open>toLowerCase\<close> maps \<open>A\<close>..\<open>Z\<close> and the capital letters of Latin-1
  (U+00C0..U+00DE but the multiplication sign U+00D7) to the letter 32 places on, and leaves
  every other code alone. White space (\<open>\s\<close>, \<open>trim\<close>) is tab, line feed, vertical tab, form
  feed, carriage return, space and the no-break space U+00A0. The character classes of the
  regular expressions of the source (\<open>a-z\<close>, \<open>A-Z\<close>, \<open>0-9\<close>, \<open>\w\<close>) are ASCII.
\<close>

definition DQ :: char where
  "DQ = CHR 0x22"

definition SQ :: char where
  "SQ = CHR 0x27"

definition BSL :: char where
  "BSL = CHR 0x5C"

definition code :: "char \<Rightarrow> nat" where
  "code c = of_char c"

definition toLowerChar :: "char \<Rightarrow> char" where
  "toLowerChar c =
     (if (65 \<le> code c \<and> code c \<le> 90) \<or> (192 \<le> code c \<and> code c \<le> 222 \<and> code c \<noteq> 215)
      then char_of (code c + 32) else c)"

definition toLowerCase :: "string \<Rightarrow> string" where
  "toLowerCase s = map toLowerChar s"

definition isSpace :: "char \<Rightarrow> bool" where
  "isSpace c = (code c = 32 \<or> (9 \<le> code c \<and> code c \<le> 13) \<or> code c = 160)"

definition isAlnum :: "char \<Rightarrow> bool" where
  "isAlnum c = ((48 \<le> code c \<and> code c \<le> 57) \<or> (65 \<le> code c \<and> code c \<le> 90)
     \<or> (97 \<le> code c \<and> code c \<le> 122))"

text \<open>A word character of a regular expression, \<open>\w\<close>.\<close>

definition isWordChar :: "char \<Rightarrow> bool" where
  "isWordChar c = (isAlnum c \<or> c = CHR ''_'')"

definition trim :: "string \<Rightarrow> string" where
  "trim s = rev (dropWhile isSpace (rev (dropWhile isSpace s)))"

fun startsWith :: "string \<Rightarrow> string \<Rightarrow> bool" where
  "startsWith hay [] = True"
| "startsWith [] (n # ns) = False"
| "startsWith (h # hs) (n # ns) = (h = n \<and> startsWith hs ns)"

text \<open>\<open>hay.includes(needle)\<close>\<close>

fun str_includes :: "string \<Rightarrow> string \<Rightarrow> bool" where
  "str_includes [] n = (n = [])"
| "str_includes (h # t) n = (startsWith (h # t) n \<or> str_includes t n)"

text \<open>\<open>s.split(/\s+/)\<close> and \<open>s.split(/[^a-zA-Z0-9]+/)\<close>: the pieces between maximal runs of
  separators, with an empty piece before a leading run and after a trailing one. The flag
  says that the character before was a separator.\<close>

fun splitRuns :: "(char \<Rightarrow> bool) \<Rightarrow> bool \<Rightarrow> string \<Rightarrow> string list" where
  "splitRuns sep prev [] = [[]]"
| "splitRuns sep prev (c # cs) =
     (if sep c then (if prev then splitRuns sep True cs else [] # splitRuns sep True cs)
      else (case splitRuns sep False cs of
              [] \<Rightarrow> [[c]]
            | p # ps \<Rightarrow> (c # p) # ps))"

text \<open>\<open>Array.from(new Set(xs))\<close>: the first occurrence of each element, in order.\<close>

fun dedupFirst :: "string list \<Rightarrow> string list \<Rightarrow> string list" where
  "dedupFirst seen [] = []"
| "dedupFirst seen (x # xs) =
     (if x \<in> set seen then dedupFirst seen xs else x # dedupFirst (x # seen) xs)"

section \<open>The DOM snapshot index (cheerio)\<close>

text \<open>
  The element types of the parser behind cheerio: a selector matches elements only, and an
  element is of type \<open>tag\<close>, \<open>script\<close> or \<open>style\<close>.
\<close>

datatype node_type = TagNode | ScriptNode | StyleNode

text \<open>
  An element as the source reads it: \<open>el.type\<close>, \<open>el.name\<close>, \<open>el.attribs\<close> and the
  string \<open>$(el).text()\<close>.
\<close>

record element =
  el_type :: node_type
  el_name :: string
  attribs :: "(string \<times> string) list"
  el_text :: string

text \<open>
  cheerio is a dependency, so the loaded snapshot \<open>$\<close> is a parameter: a selector string
  gives the matched elements in document order, or \<open>None\<close> when cheerio throws (a selector
  it cannot parse).
\<close>

type_synonym cheerio = "string \<Rightarrow> element list option"

text \<open>
  The exceptions that leave a call: cheerio rejecting a selector outside any \<open>try\<close>, and
  the \<open>TypeError\<close> of a property access on \<open>null\<close>.
\<close>

datatype error = SelectorError | TypeError

text \<open>\<open>attribs[k] || ''\<close>\<close>

definition attr :: "element \<Rightarrow> string \<Rightarrow> string" where
  "attr el k = (case map_of (attribs el) k of None \<Rightarrow> [] | Some v \<Rightarrow> v)"

text \<open>\<open>/^(submit|button)$/i.test(s)\<close>\<close>

definition isSubmitOrButton :: "string \<Rightarrow> bool" where
  "isSubmitOrButton s = (toLowerCase s = ''submit'' \<or> toLowerCase s = ''button'')"

text \<open>\<open>/\bbtn\b/.test(s)\<close>; the flag says that a word boundary stands before the rest.\<close>

fun btnWord :: "bool \<Rightarrow> string \<Rightarrow> bool" where
  "btnWord boundary [] = False"
| "btnWord boundary (c # cs) =
     ((boundary \<and> startsWith (c # cs) ''btn''
        \<and> (case drop 3 (c # cs) of [] \<Rightarrow> True | d # ds \<Rightarrow> \<not> isWordChar d))
      \<or> btnWord (\<not> isWordChar c) cs)"

definition clickableEl :: "element \<Rightarrow> bool" where
  "clickableEl el =
     (if el_name el = ''button'' then True
      else if el_name el = ''input'' \<and> isSubmitOrButton (attr el ''type'') then True
      else if el_name el = ''a''
            \<and> (toLowerCase (attr el ''role'') = ''button'' \<or> btnWord True (attr el ''class''))
        then True
      else False)"

definition isClickableSelector :: "cheerio \<Rightarrow> string \<Rightarrow> bool" where
  "isClickableSelector dollar selector =
     (case dollar selector of
        None \<Rightarrow> False
      | Some nodes \<Rightarrow>
          if length nodes = 0 then False
          else list_ex clickableEl (filter (\<lambda>el. el_type el = TagNode) nodes))"

section \<open>The heuristic scorer\<close>

definition selectorSyntax :: "char \<Rightarrow> bool" where
  "selectorSyntax c = (c \<in> set ''#.[]=:'' \<or> c = DQ \<or> c = SQ)"

definition rank :: "string \<Rightarrow> int" where
  "rank t = (if t = ''login'' then - 2 else if t = ''button'' then - 1 else 0)"

definition extractTokens :: "string \<Rightarrow> string list" where
  "extractTokens sel =
     (let raw = filter (\<lambda>s. s \<noteq> [])
                  (map (\<lambda>s. toLowerCase (trim s))
                    (splitRuns (\<lambda>c. \<not> isAlnum c) False
                      (map (\<lambda>c. if selectorSyntax c then CHR '' '' else c) sel)));
          dedup = filter (\<lambda>t. 3 \<le> length t) (dedupFirst [] raw)
      in sort_key rank dedup)"

definition tokenMatchScore :: "string list \<Rightarrow> string \<Rightarrow> int \<Rightarrow> int" where
  "tokenMatchScore tokens v weightPerHit =
     (if v = [] then 0
      else weightPerHit * int (length (filter (\<lambda>t. str_includes (toLowerCase v) t) tokens)))"

definition containsAny :: "string \<Rightarrow> string list \<Rightarrow> bool" where
  "containsAny hay needles = list_ex (\<lambda>n. str_includes hay n) needles"

definition containsAll :: "string \<Rightarrow> string list \<Rightarrow> bool" where
  "containsAll hay needles = list_all (\<lambda>n. str_includes hay n) needles"

definition eq :: "string \<Rightarrow> string \<Rightarrow> bool" where
  "eq a b = (toLowerCase a = toLowerCase b)"

text \<open>\<open>s.replace(/"/g, '\\"')\<close>\<close>

definition cssEscape :: "string \<Rightarrow> string" where
  "cssEscape s = concat (map (\<lambda>c. if c = DQ then [BSL, DQ] else [c]) s)"

text \<open>\<open>/container|wrapper/i.test(s)\<close>\<close>

definition namesContainer :: "string \<Rightarrow> bool" where
  "namesContainer s = containsAny (toLowerCase s) [''container'', ''wrapper'']"

text \<open>The first class name: \<open>String(cls).trim().split(/\s+/).filter(Boolean)[0]\<close>.\<close>

definition firstClass :: "string \<Rightarrow> string option" where
  "firstClass cls =
     (case filter (\<lambda>s. s \<noteq> []) (splitRuns isSpace False (trim cls)) of
        [] \<Rightarrow> None
      | c # cs \<Rightarrow> Some c)"

definition buildBestSelectorFor :: "element \<Rightarrow> string" where
  "buildBestSelectorFor el =
     (let tag = (if el_name el = [] then ''div'' else el_name el);
          id = attr el ''id'';
          dt = attr el ''data-test'';
          dti = attr el ''data-testid''
      in if id \<noteq> [] \<and> \<not> namesContainer id then ''#'' @ cssEscape id
         else if dt \<noteq> [] \<and> \<not> namesContainer dt
           then ''[data-test='' @ [DQ] @ cssEscape dt @ [DQ] @ '']''
         else if dti \<noteq> [] then ''[data-testid='' @ [DQ] @ cssEscape dti @ [DQ] @ '']''
         else if attr el ''name'' \<noteq> []
           then tag @ ''[name='' @ [DQ] @ cssEscape (attr el ''name'') @ [DQ] @ '']''
         else if attr el ''aria-label'' \<noteq> []
           then tag @ ''[aria-label*='' @ [DQ] @ cssEscape (attr el ''aria-label'') @ [DQ] @ '']''
         else (case (if attr el ''class'' \<noteq> [] then firstClass (attr el ''class'') else None) of
                 Some c \<Rightarrow> if c \<noteq> [] \<and> \<not> namesContainer c then ''.'' @ cssEscape c else tag
               | None \<Rightarrow> tag))"

section \<open>Cache entries\<close>

datatype Source = FromHeuristic | FromAI | FromCache

record CacheEntry =
  healed :: string
  source :: Source
  ts :: string

text \<open>
  A \<open>CacheShape\<close> object by its own properties, each key once. The code reads a property
  and counts the keys; the order of the list means nothing.
\<close>

type_synonym CacheShape = "(string \<times> CacheEntry) list"

section \<open>Observable effects\<close>

text \<open>
  What a call does besides returning: the lines it prints (\<open>console.log\<close>, \<open>console.warn\<close>),
  the requests it posts, the timers it waits for and the writes to the cache file, in order.
\<close>

datatype message =
    UsingCached string
  | TryingHeuristic string
  | HeuristicTokens "string list"
  | HeuristicFound string
  | HeuristicFailed
  | FallingBackToAI string
  | AIFound string
  | AIFallbackFailed
  | FailedToHeal string
  | RateLimited int nat int
  | AIHealingFailed
  | CacheReadFailed
  | CacheSaved nat
  | CacheWriteFailed

datatype event =
    Log message
  | Warn message
  | HttpPost string string
  | Sleep int
  | WriteFileSync CacheShape

section \<open>The heuristic scorer, continued\<close>

definition clickableSelectors :: "string list" where
  "clickableSelectors =
     [''button'',
      ''input[type='' @ [DQ] @ ''submit'' @ [DQ] @ '']'',
      ''input[type='' @ [DQ] @ ''button'' @ [DQ] @ '']'',
      ''[role='' @ [DQ] @ ''button'' @ [DQ] @ '']'',
      ''a.btn'',
      ''a[role='' @ [DQ] @ ''button'' @ [DQ] @ '']'']"

text \<open>The candidates: for each selector in turn, its matches of type \<open>tag\<close>.\<close>

fun gather :: "cheerio \<Rightarrow> string list \<Rightarrow> error + element list" where
  "gather dollar [] = Inr []"
| "gather dollar (sel # sels) =
     (case dollar sel of
        None \<Rightarrow> Inl SelectorError
      | Some els \<Rightarrow>
          (case gather dollar sels of
             Inl e \<Rightarrow> Inl e
           | Inr rest \<Rightarrow> Inr (filter (\<lambda>el. el_type el = TagNode) els @ rest)))"

definition looksContainer :: "element \<Rightarrow> bool" where
  "looksContainer el =
     containsAny (toLowerCase (attr el ''id'') @ '' '' @ toLowerCase (attr el ''class''))
       [''container'', ''wrapper'', ''form'', ''box'', ''panel'', ''section'']"

text \<open>\<open>/^#[-a-zA-Z0-9_]+$/.test(s)\<close>\<close>

definition bareId :: "string \<Rightarrow> bool" where
  "bareId s =
     (case s of
        [] \<Rightarrow> False
      | c # cs \<Rightarrow> c = CHR ''#'' \<and> cs \<noteq> [] \<and> list_all (\<lambda>d. isWordChar d \<or> d = CHR ''-'') cs)"

definition score :: "string list \<Rightarrow> element \<Rightarrow> int" where
  "score tokens el =
     (let tag = el_name el;
          txt = toLowerCase (trim (el_text el));
          iddt = attr el ''id'' @ '' '' @ attr el ''data-test'';
          candidateSelector = buildBestSelectorFor el
      in (if tag = ''button'' then 8 else 0)
       + (if tag = ''input'' \<and> isSubmitOrButton (attr el ''type'') then 8 else 0)
       + (if tag = ''a'' then 3 else 0)
       + (if eq (attr el ''data-test'') ''login-button'' then 50 else 0)
       + (if eq (attr el ''id'') ''login-button'' then 50 else 0)
       + tokenMatchScore tokens (attr el ''id'') 12
       + tokenMatchScore tokens (attr el ''data-test'') 14
       + tokenMatchScore tokens (attr el ''data-testid'') 10
       + tokenMatchScore tokens (attr el ''name'') 8
       + tokenMatchScore tokens (attr el ''aria-label'') 6
       + tokenMatchScore tokens (attr el ''value'') 4
       + tokenMatchScore tokens (attr el ''class'') 2
       + tokenMatchScore tokens txt 6
       - (if containsAny (toLowerCase (attr el ''data-test'')) [''container'', ''wrapper'']
          then 30 else 0)
       - (if containsAny (toLowerCase (attr el ''id'')) [''container'', ''wrapper'']
          then 30 else 0)
       + (if containsAll (toLowerCase iddt) [''login'', ''button''] then 40 else 0)
       + (if bareId candidateSelector then 8 else 0)
       + (if startsWith candidateSelector ''[data-test='' then 6 else 0))"

text \<open>\<open>s > bestScore\<close>, where \<open>None\<close> is the initial \<open>-Infinity\<close>.\<close>

definition beats :: "int \<Rightarrow> int option \<Rightarrow> bool" where
  "beats s bestScore = (case bestScore of None \<Rightarrow> True | Some b \<Rightarrow> b < s)"

text \<open>The loop over the candidates, with \<open>bestSel\<close> and \<open>bestScore\<close> as its state.\<close>

fun pick :: "string list \<Rightarrow> element list \<Rightarrow> string \<times> int option \<Rightarrow> string \<times> int option" where
  "pick tokens [] best = best"
| "pick tokens (el # els) (bestSel, bestScore) =
     (if looksContainer el then pick tokens els (bestSel, bestScore)
      else if beats (score tokens el) bestScore
        then pick tokens els (buildBestSelectorFor el, Some (score tokens el))
      else pick tokens els (bestSel, bestScore))"

definition guardDelim :: "char \<Rightarrow> bool" where
  "guardDelim c = (c = DQ \<or> c = SQ \<or> c = CHR ''-'' \<or> isSpace c)"

text \<open>
  \<open>/(^|["'\-\s])(login-container|wrapper|container)(["'\-\s]|$)/i.test(s)\<close>; the flag says
  that the rest stands at the start of the string or behind a delimiter.
\<close>

fun containerGuard :: "bool \<Rightarrow> string \<Rightarrow> bool" where
  "containerGuard opening [] = False"
| "containerGuard opening (c # cs) =
     ((opening \<and> list_ex (\<lambda>m. startsWith (toLowerCase (c # cs)) m
          \<and> (case drop (length m) (c # cs) of [] \<Rightarrow> True | d # ds \<Rightarrow> guardDelim d))
        [''login-container'', ''wrapper'', ''container''])
      \<or> containerGuard (guardDelim c) cs)"

definition heuristicHeal ::
  "cheerio \<Rightarrow> string \<Rightarrow> (error + string option) \<times> event list" where
  "heuristicHeal dollar failedSelector =
     (let tokens = extractTokens failedSelector;
          tr = [Log (HeuristicTokens tokens)]
      in case gather dollar clickableSelectors of
           Inl e \<Rightarrow> (Inl e, tr)
         | Inr candidates \<Rightarrow>
             if length candidates = 0 then (Inr None, tr)
             else (case pick tokens candidates ([], None) of
                     (bestSel, bestScore) \<Rightarrow>
                       if bestSel = [] then (Inr None, tr)
                       else if containerGuard True bestSel then (Inr None, tr)
                       else (Inr (Some bestSel), tr)))"

section \<open>The healed-selector cache\<close>

text \<open>
  The cache file by what \<open>fs\<close> and \<open>JSON.parse\<close> make of it: no file, a file that cannot be
  read, text that is blank after \<open>trim\<close>, text that \<open>JSON.parse\<close> rejects, the text \<open>null\<close>,
  which \<open>JSON.parse\<close> accepts and which is no record, and text that parses to a \<open>CacheShape\<close>
  (what \<open>writeFile\<close> leaves: \<open>JSON.parse\<close> gives back the own properties that
  \<open>JSON.stringify\<close> wrote). Other text that parses to no record of entries (a number, a
  string, an array) is not in the model.
  \<open>writable\<close> says whether \<open>fs.writeFileSync\<close> succeeds; when it throws the file stays as it
  was.
\<close>

datatype cache_file = NoFile | ReadFails | BlankText | BadJson | JsonNull | Json CacheShape

record disk =
  cacheFile :: cache_file
  writable :: bool

text \<open>What \<open>readFile\<close> returns: \<open>null\<close> or an object.\<close>

datatype db_value = NullValue | ObjectValue CacheShape

text \<open>
  Property access on a plain object. A key that is not an own property is looked up in
  \<open>Object.prototype\<close>, whose members are no cache entries. Assigning to \<open>__proto__\<close>, when it
  is not an own property, calls the setter of \<open>Object.prototype\<close>: it replaces the prototype
  and adds no own property.
\<close>

datatype 'a property = Undefined | Own 'a | Inherited

definition objectPrototypeKeys :: "string list" where
  "objectPrototypeKeys =
     [''constructor'', ''__defineGetter__'', ''__defineSetter__'', ''hasOwnProperty'',
      ''__lookupGetter__'', ''__lookupSetter__'', ''isPrototypeOf'', ''propertyIsEnumerable'',
      ''toString'', ''valueOf'', ''__proto__'', ''toLocaleString'']"

definition getProp :: "CacheShape \<Rightarrow> string \<Rightarrow> CacheEntry property" where
  "getProp obj k =
     (case map_of obj k of
        Some e \<Rightarrow> Own e
      | None \<Rightarrow> if k \<in> set objectPrototypeKeys then Inherited else Undefined)"

definition setProp :: "CacheShape \<Rightarrow> string \<Rightarrow> CacheEntry \<Rightarrow> CacheShape" where
  "setProp obj k v =
     (if k = ''__proto__'' \<and> map_of obj k = None then obj else AList.update k v obj)"

text \<open>
  \<open>readFile\<close> returns what \<open>JSON.parse\<close> gives, and \<open>{}\<close> for no file, blank text and in
  the \<open>catch\<close> block.
\<close>

definition readFile :: "disk \<Rightarrow> db_value \<times> event list" where
  "readFile d =
     (case cacheFile d of
        NoFile \<Rightarrow> (ObjectValue [], [])
      | ReadFails \<Rightarrow> (ObjectValue [], [Warn CacheReadFailed])
      | BlankText \<Rightarrow> (ObjectValue [], [])
      | BadJson \<Rightarrow> (ObjectValue [], [Warn CacheReadFailed])
      | JsonNull \<Rightarrow> (NullValue, [])
      | Json obj \<Rightarrow> (ObjectValue obj, []))"

definition writeFile :: "disk \<Rightarrow> CacheShape \<Rightarrow> disk \<times> event list" where
  "writeFile d obj =
     (if writable d
      then (d\<lparr>cacheFile := Json obj\<rparr>, [WriteFileSync obj, Log (CacheSaved (length obj))])
      else (d, [WriteFileSync obj, Warn CacheWriteFailed]))"

text \<open>\<open>readFile()[broken]\<close>: on \<open>null\<close> the access throws, outside any \<open>try\<close>.\<close>

definition getHealed :: "disk \<Rightarrow> string \<Rightarrow> (error + CacheEntry property) \<times> event list" where
  "getHealed d broken =
     (case readFile d of
        (NullValue, tr) \<Rightarrow> (Inl TypeError, tr)
      | (ObjectValue obj, tr) \<Rightarrow> (Inr (getProp obj broken), tr))"

text \<open>
  \<open>setHealed\<close> returns the cache file afterwards, what it did, and the exception that left
  it, if any: on \<open>null\<close> the assignment \<open>db[broken] = ...\<close> throws before anything is
  written. \<open>now\<close> is \<open>new Date().toISOString()\<close>.
\<close>

definition setHealed ::
  "string \<Rightarrow> disk \<Rightarrow> string \<Rightarrow> string \<Rightarrow> Source \<Rightarrow> disk \<times> event list \<times> error option" where
  "setHealed now d broken healedSel src =
     (case readFile d of
        (NullValue, t1) \<Rightarrow> (d, t1, Some TypeError)
      | (ObjectValue db, t1) \<Rightarrow>
          (case writeFile d (setProp db broken \<lparr>healed = healedSel, source = src, ts = now\<rparr>) of
             (d', t2) \<Rightarrow> (d', t1 @ t2, None)))"

section \<open>The remote-suggestion client\<close>

text \<open>
  What one \<open>axios.post\<close> comes to inside the \<open>try\<close> block: \<open>Reply c\<close> when the request
  succeeds, with \<open>c\<close> the string \<open>res.data?.choices?.[0]?.message?.content || ''\<close>; and
  \<open>Failure st\<close> when the block throws, with \<open>st\<close> the value of \<open>e?.response?.status\<close>, if
  any. The service is a parameter: it is asked by the number of the attempt, from 1.
\<close>

datatype http_result = Reply string | Failure "nat option"

definition stripBoth :: "char \<Rightarrow> string \<Rightarrow> string" where
  "stripBoth q s = rev (dropWhile (\<lambda>c. c = q) (rev (dropWhile (\<lambda>c. c = q) s)))"

text \<open>The first line of the answer, trimmed, without backquotes and quotes around it.\<close>

definition cleanAnswer :: "string \<Rightarrow> string" where
  "cleanAnswer content =
     (let raw = trim content;
          firstLine = trim (takeWhile (\<lambda>c. c \<noteq> CHR 0x0A) raw)
      in stripBoth DQ (stripBoth (CHR 0x60) firstLine))"

definition buildAIPrompt :: "string \<Rightarrow> string \<Rightarrow> string" where
  "buildAIPrompt failedSelector htmlSnapshot =
     ''You are helping fix a broken CSS selector in an end-to-end test.'' @ [CHR 0x0A]
     @ ''Failed selector: '' @ failedSelector @ [CHR 0x0A, CHR 0x0A]
     @ ''HTML snapshot (truncated):'' @ [CHR 0x0A]
     @ take 12000 htmlSnapshot @ [CHR 0x0A, CHR 0x0A]
     @ ''Return ONLY one line: a single CSS selector that clicks the actual ''
     @ [SQ] @ ''Login'' @ [SQ]
     @ '' button (not any container/wrapper). Prefer id or [data-test] if available.''"

text \<open>
  The retry loop of \<open>aiHeal\<close>, from the attempt \<open>attempt\<close> on with the backoff \<open>delay\<close>. It
  returns the selector, if any, and what it did.
\<close>

function aiLoop ::
  "cheerio \<Rightarrow> (nat \<Rightarrow> http_result) \<Rightarrow> string \<Rightarrow> string \<Rightarrow> int \<Rightarrow> nat \<Rightarrow> int
    \<Rightarrow> string option \<times> event list" where
  "aiLoop dollar service model prompt maxAIRetries attempt delay =
     (if int attempt \<le> maxAIRetries then
        (case service attempt of
           Reply content \<Rightarrow>
             if cleanAnswer content \<noteq> [] \<and> isClickableSelector dollar (cleanAnswer content)
               then (Some (cleanAnswer content), [HttpPost model prompt])
             else if str_includes (toLowerCase (cleanAnswer content)) ''login-container''
               then (None, [HttpPost model prompt])
             else apsnd (\<lambda>tr. HttpPost model prompt # tr)
                    (aiLoop dollar service model prompt maxAIRetries (Suc attempt) delay)
         | Failure status \<Rightarrow>
             if status = Some 429 \<and> int attempt < maxAIRetries
               then apsnd (\<lambda>tr. [HttpPost model prompt,
                                  Warn (RateLimited delay attempt maxAIRetries),
                                  Sleep delay] @ tr)
                      (aiLoop dollar service model prompt maxAIRetries (Suc attempt) (delay * 2))
             else (None, [HttpPost model prompt, Warn AIHealingFailed]))
      else (None, []))"
  by pat_completeness auto
termination
  by (relation "measure (\<lambda>(dollar, service, model, prompt, maxAIRetries, attempt, delay).
        nat (maxAIRetries + 1 - int attempt))") auto

declare aiLoop.simps [simp del]

definition aiHeal ::
  "cheerio \<Rightarrow> (nat \<Rightarrow> http_result) \<Rightarrow> string \<Rightarrow> string \<Rightarrow> string \<Rightarrow> int \<Rightarrow> int
    \<Rightarrow> string option \<times> event list" where
  "aiHeal dollar service failedSelector htmlSnapshot model maxAIRetries backoffMs =
     aiLoop dollar service model (buildAIPrompt failedSelector htmlSnapshot)
       maxAIRetries 1 backoffMs"

section \<open>The healing orchestrator\<close>

text \<open>
  The options of a call; \<open>None\<close> is a field that is left out. The two numbers are whole
  numbers.
\<close>

record HealOptions =
  preferHeuristic :: "bool option"
  allowAI :: "bool option"
  model :: "string option"
  maxAIRetries :: "int option"
  backoffMs :: "int option"

text \<open>\<open>process.env\<close>\<close>

type_synonym env = "string \<Rightarrow> string option"

text \<open>\<open>process.env.OPENAI_MODEL || 'gpt-4o-mini'\<close>\<close>

definition defaultModel :: "env \<Rightarrow> string" where
  "defaultModel env =
     (case env ''OPENAI_MODEL'' of
        None \<Rightarrow> ''gpt-4o-mini''
      | Some m \<Rightarrow> if m = [] then ''gpt-4o-mini'' else m)"

text \<open>Whether \<open>process.env.OPENAI_API_KEY\<close> is set to a string that is not empty.\<close>

definition hasKey :: "env \<Rightarrow> bool" where
  "hasKey env = (case env ''OPENAI_API_KEY'' of None \<Rightarrow> False | Some k \<Rightarrow> k \<noteq> [])"

text \<open>
  The result of a call: the selector, or \<open>None\<close>, or the exception that left it; the cache
  file afterwards; and what the call did.
\<close>

type_synonym outcome = "(error + string option) \<times> disk \<times> event list"

text \<open>Step 3 and the end of \<open>healSelector\<close>.\<close>

definition aiStage ::
  "cheerio \<Rightarrow> env \<Rightarrow> (nat \<Rightarrow> http_result) \<Rightarrow> string \<Rightarrow> disk \<Rightarrow> string \<Rightarrow> string
    \<Rightarrow> HealOptions \<Rightarrow> outcome" where
  "aiStage dollar env service now d failedSelector htmlSnapshot opts =
     (if (case allowAI opts of None \<Rightarrow> True | Some b \<Rightarrow> b) \<and> hasKey env then
        (case aiHeal dollar service failedSelector htmlSnapshot
                (case model opts of None \<Rightarrow> defaultModel env | Some m \<Rightarrow> m)
                (case maxAIRetries opts of None \<Rightarrow> 6 | Some n \<Rightarrow> n)
                (case backoffMs opts of None \<Rightarrow> 500 | Some b \<Rightarrow> b) of
           (ai, t1) \<Rightarrow>
             (let failed =
                (Inr None, d,
                 [Log (FallingBackToAI failedSelector)] @ t1
                 @ [Warn AIFallbackFailed, Warn (FailedToHeal failedSelector)])
              in case ai of
                   None \<Rightarrow> failed
                 | Some sel \<Rightarrow>
                     if sel \<noteq> [] \<and> isClickableSelector dollar sel then
                       (case setHealed now d failedSelector sel FromAI of
                          (d', t2, thrown) \<Rightarrow>
                            ((case thrown of None \<Rightarrow> Inr (Some sel) | Some e \<Rightarrow> Inl e), d',
                             [Log (FallingBackToAI failedSelector)] @ t1
                             @ [Log (AIFound sel)] @ t2))
                     else failed))
      else (Inr None, d, [Warn (FailedToHeal failedSelector)]))"

text \<open>Step 2 of \<open>healSelector\<close>, and the rest after it.\<close>

definition heuristicStage ::
  "cheerio \<Rightarrow> env \<Rightarrow> (nat \<Rightarrow> http_result) \<Rightarrow> string \<Rightarrow> disk \<Rightarrow> string \<Rightarrow> string
    \<Rightarrow> HealOptions \<Rightarrow> outcome" where
  "heuristicStage dollar env service now d failedSelector htmlSnapshot opts =
     (if (case preferHeuristic opts of None \<Rightarrow> True | Some b \<Rightarrow> b) then
        (case heuristicHeal dollar failedSelector of
           (Inl e, t1) \<Rightarrow> (Inl e, d, [Log (TryingHeuristic failedSelector)] @ t1)
         | (Inr heuristic, t1) \<Rightarrow>
             (let failed =
                (case aiStage dollar env service now d failedSelector htmlSnapshot opts of
                   (r, d', t3) \<Rightarrow>
                     (r, d', [Log (TryingHeuristic failedSelector)] @ t1
                             @ [Log HeuristicFailed] @ t3))
              in case heuristic of
                   None \<Rightarrow> failed
                 | Some sel \<Rightarrow>
                     if sel \<noteq> [] \<and> isClickableSelector dollar sel then
                       (case setHealed now d failedSelector sel FromHeuristic of
                          (d', t2, thrown) \<Rightarrow>
                            ((case thrown of None \<Rightarrow> Inr (Some sel) | Some e \<Rightarrow> Inl e), d',
                             [Log (TryingHeuristic failedSelector)] @ t1
                             @ [Log (HeuristicFound sel)] @ t2))
                     else failed))
      else aiStage dollar env service now d failedSelector htmlSnapshot opts)"

text \<open>
  \<open>healSelector\<close>. \<open>load\<close> is cheerio's parser, \<open>service\<close> the remote service, \<open>now\<close> the
  time stamp of the clock and \<open>d\<close> the cache file before the call. An exception of
  \<open>getHealed\<close> leaves the call at once. A cached value that is no entry (a member of
  \<open>Object.prototype\<close>) has no \<open>healed\<close> field, and cheerio's selection for \<open>undefined\<close> is
  empty: it is not clickable.
\<close>

definition healSelector ::
  "(string \<Rightarrow> cheerio) \<Rightarrow> env \<Rightarrow> (nat \<Rightarrow> http_result) \<Rightarrow> string \<Rightarrow> disk \<Rightarrow> string \<Rightarrow> string
    \<Rightarrow> HealOptions \<Rightarrow> outcome" where
  "healSelector load env service now d failedSelector htmlSnapshot opts =
     (case getHealed d failedSelector of
        (Inl e, t0) \<Rightarrow> (Inl e, d, t0)
      | (Inr fromCache, t0) \<Rightarrow>
          (let miss =
             (case heuristicStage (load htmlSnapshot) env service now d
                     failedSelector htmlSnapshot opts of
                (r, d', t1) \<Rightarrow> (r, d', t0 @ t1))
           in case fromCache of
                Own e \<Rightarrow>
                  if isClickableSelector (load htmlSnapshot) (healed e)
                  then (Inr (Some (healed e)), d, t0 @ [Log (UsingCached (healed e))])
                  else miss
              | Inherited \<Rightarrow> miss
              | Undefined \<Rightarrow> miss))"

section \<open>Reading a run\<close>

text \<open>The number of requests a run posted, and the delays it slept for, in order.\<close>

definition requests :: "event list \<Rightarrow> nat" where
  "requests tr = length (filter (\<lambda>e. case e of HttpPost m p \<Rightarrow> True | _ \<Rightarrow> False) tr)"

definition sleeps :: "event list \<Rightarrow> int list" where
  "sleeps tr = concat (map (\<lambda>e. case e of Sleep ms \<Rightarrow> [ms] | _ \<Rightarrow> []) tr)"

text \<open>
  What the attempt \<open>a + i\<close> does when it is rate-limited and not the last one, in a stage
  whose attempt \<open>a\<close> started with the backoff \<open>d\<close>.
\<close>

definition rateLimitedRound ::
  "string \<Rightarrow> string \<Rightarrow> int \<Rightarrow> nat \<Rightarrow> int \<Rightarrow> nat \<Rightarrow> event list" where
  "rateLimitedRound m p maxR a d i =
     [HttpPost m p, Warn (RateLimited (d * 2 ^ i) (a + i) maxR), Sleep (d * 2 ^ i)]"

text \<open>
  The answers after which the loop goes on to the next attempt, while attempts remain: a
  rate-limit failure, and a reply that is neither accepted nor a container.
\<close>

definition continues :: "cheerio \<Rightarrow> http_result \<Rightarrow> bool" where
  "continues dollar r =
     (case r of
        Failure st \<Rightarrow> st = Some 429
      | Reply c \<Rightarrow> \<not> (cleanAnswer c \<noteq> [] \<and> isClickableSelector dollar (cleanAnswer c))
                   \<and> \<not> str_includes (toLowerCase (cleanAnswer c)) ''login-container'')"

text \<open>
  The answers that end the stage with no selector: a failure that is no rate limit, and a
  reply that is not accepted and matches the container marker.
\<close>

definition aborts :: "cheerio \<Rightarrow> http_result \<Rightarrow> bool" where
  "aborts dollar r =
     (case r of
        Failure st \<Rightarrow> st \<noteq> Some 429
      | Reply c \<Rightarrow> \<not> (cleanAnswer c \<noteq> [] \<and> isClickableSelector dollar (cleanAnswer c))
                   \<and> str_includes (toLowerCase (cleanAnswer c)) ''login-container'')"

text \<open>What the attempt that ends the stage does.\<close>

definition lastEvents :: "string \<Rightarrow> string \<Rightarrow> http_result \<Rightarrow> event list" where
  "lastEvents m p r =
     (case r of
        Failure st \<Rightarrow> [HttpPost m p, Warn AIHealingFailed]
      | Reply c \<Rightarrow> [HttpPost m p])"

text \<open>
  The highest-scoring candidate in the words of the specification: among the candidates
  that are not discarded as structural, the first one that no other outscores.
\<close>

definition highestScoring :: "string list \<Rightarrow> element list \<Rightarrow> element option" where
  "highestScoring tokens candidates =
     (let kept = filter (\<lambda>el. \<not> looksContainer el) candidates
      in find (\<lambda>el. list_all (\<lambda>other. score tokens other \<le> score tokens el) kept) kept)"

text \<open>An element as it would be without one of its attributes.\<close>

definition withoutAttr :: "string \<Rightarrow> element \<Rightarrow> element" where
  "withoutAttr k el = el\<lparr>attribs := filter (\<lambda>kv. fst kv \<noteq> k) (attribs el)\<rparr>"

section \<open>Scenarios\<close>

text \<open>
  Scenario A: \<open><div class="login-container"><button id="login-button"
  data-test="login-button">Login</button></div>\<close>. \<open>scenarioA\<close> gives cheerio's answers on
  it for the selectors that are asked below; no other selector is asked.
\<close>

definition loginButton :: element where
  "loginButton = \<lparr>el_type = TagNode, el_name = ''button'',
     attribs = [(''id'', ''login-button''), (''data-test'', ''login-button'')],
     el_text = ''Login''\<rparr>"

definition loginContainer :: element where
  "loginContainer = \<lparr>el_type = TagNode, el_name = ''div'',
     attribs = [(''class'', ''login-container'')], el_text = ''Login''\<rparr>"

definition scenarioA :: cheerio where
  "scenarioA sel =
     (if sel = ''button'' \<or> sel = ''#login-button'' \<or> sel = ''.login-container button''
        then Some [loginButton]
      else if sel = ''div'' \<or> sel = ''.login-container'' then Some [loginContainer]
      else Some [])"

text \<open>A page with one button, \<open><button id="go" data-test="btn-wrapper">Go</button>\<close>.\<close>

definition wrapperButton :: element where
  "wrapperButton = \<lparr>el_type = TagNode, el_name = ''button'',
     attribs = [(''id'', ''go''), (''data-test'', ''btn-wrapper'')], el_text = ''Go''\<rparr>"

definition wrapperPage :: cheerio where
  "wrapperPage sel = (if sel = ''button'' \<or> sel = ''#go'' then Some [wrapperButton] else Some [])"

text \<open>A page with one button, \<open><button data-testid="wrapper">Go</button>\<close>.\<close>

definition guardedButton :: element where
  "guardedButton = \<lparr>el_type = TagNode, el_name = ''button'',
     attribs = [(''data-testid'', ''wrapper'')], el_text = ''Go''\<rparr>"

definition guardedPage :: cheerio where
  "guardedPage sel = (if sel = ''button'' then Some [guardedButton] else Some [])"

text \<open>
  A page with two buttons, one after the other:
  \<open><button id="login-button-wrapper" data-test="login-button">Login</button>\<close> and
  \<open><button id="submit">Sign in</button>\<close>.
\<close>

definition rivalWrapper :: element where
  "rivalWrapper = \<lparr>el_type = TagNode, el_name = ''button'',
     attribs = [(''id'', ''login-button-wrapper''), (''data-test'', ''login-button'')],
     el_text = ''Login''\<rparr>"

definition submitButton :: element where
  "submitButton = \<lparr>el_type = TagNode, el_name = ''button'',
     attribs = [(''id'', ''submit'')], el_text = ''Sign in''\<rparr>"

definition rivalPage :: cheerio where
  "rivalPage sel =
     (if sel = ''button'' then Some [rivalWrapper, submitButton]
      else if sel = ''#submit'' then Some [submitButton]
      else Some [])"

text \<open>
  A page with two buttons, one after the other:
  \<open><button id="login-submit-wrapper" value="login submit">Go</button>\<close> and
  \<open><button>Go</button>\<close>.
\<close>

definition valueWrapper :: element where
  "valueWrapper = \<lparr>el_type = TagNode, el_name = ''button'',
     attribs = [(''id'', ''login-submit-wrapper''), (''value'', ''login submit'')],
     el_text = ''Go''\<rparr>"

definition plainButton :: element where
  "plainButton = \<lparr>el_type = TagNode, el_name = ''button'', attribs = [], el_text = ''Go''\<rparr>"

definition twoButtons :: cheerio where
  "twoButtons sel = (if sel = ''button'' then Some [valueWrapper, plainButton] else Some [])"

text \<open>A page without any element that a selector could match.\<close>

definition emptyPage :: cheerio where
  "emptyPage sel = Some []"

definition noOptions :: HealOptions where
  "noOptions = \<lparr>preferHeuristic = None, allowAI = None, model = None,
     maxAIRetries = None, backoffMs = None\<rparr>"

definition noEnv :: env where
  "noEnv = (\<lambda>v. None)"

text \<open>An environment with a credential and with the switch \<open>AI_DISABLED\<close> set.\<close>

definition disabledEnv :: env where
  "disabledEnv = [''OPENAI_API_KEY'' \<mapsto> ''sk-test'', ''AI_DISABLED'' \<mapsto> ''true'']"

definition freshDisk :: disk where
  "freshDisk = \<lparr>cacheFile = NoFile, writable = True\<rparr>"

definition brokenDisk :: disk where
  "brokenDisk = \<lparr>cacheFile = BadJson, writable = False\<rparr>"

text \<open>A cache file with the text \<open>null\<close>.\<close>

definition nullDisk :: disk where
  "nullDisk = \<lparr>cacheFile = JsonNull, writable = True\<rparr>"

definition stamp :: string where
  "stamp = ''2025-01-01T00:00:00.000Z''"

definition healedDisk :: disk where
  "healedDisk = \<lparr>cacheFile = Json [(''#login-button-invalid'',
       \<lparr>healed = ''#login-button'', source = FromHeuristic, ts = stamp\<rparr>)],
     writable = True\<rparr>"

text \<open>Remote services: always rate-limited, down, and some that answer or fail in turn.\<close>

definition rateLimited :: "nat \<Rightarrow> http_result" where
  "rateLimited a = Failure (Some 429)"

definition unreachable :: "nat \<Rightarrow> http_result" where
  "unreachable a = Failure None"

definition secondThoughts :: "nat \<Rightarrow> http_result" where
  "secondThoughts a = (if a = 1 then Reply ''div'' else Reply ''#login-button'')"

definition limitedThenDown :: "nat \<Rightarrow> http_result" where
  "limitedThenDown a = (if a = 1 then Failure (Some 429) else Failure (Some 500))"

definition descendantAnswer :: "nat \<Rightarrow> http_result" where
  "descendantAnswer a = Reply ''.login-container button''"

section \<open>Every returned selector is clickable\<close>

lemma aiStage_clickable:
  "aiStage dollar env service now d failedSelector htmlSnapshot opts = (Inr (Some sel), d', tr)
   \<Longrightarrow> isClickableSelector dollar sel"
  by (auto simp: aiStage_def Let_def split: if_splits prod.splits option.splits)

lemma heuristicStage_clickable:
  "heuristicStage dollar env service now d failedSelector htmlSnapshot opts = (Inr (Some sel), d', tr)
   \<Longrightarrow> isClickableSelector dollar sel"
  by (auto simp: heuristicStage_def Let_def split: if_splits prod.splits option.splits sum.splits
      dest: aiStage_clickable)

text \<open>Scenario A from an empty cache: the heuristic heals the locator and the cache records it.\<close>

lemma scenarioA_run:
  "healSelector (\<lambda>html. scenarioA) noEnv unreachable stamp freshDisk
     ''#login-button-invalid'' ''<html>'' noOptions
   = (Inr (Some ''#login-button''), healedDisk,
      [Log (TryingHeuristic ''#login-button-invalid''),
       Log (HeuristicTokens [''login'', ''button'', ''invalid'']),
       Log (HeuristicFound ''#login-button''),
       WriteFileSync [(''#login-button-invalid'',
         \<lparr>healed = ''#login-button'', source = FromHeuristic, ts = stamp\<rparr>)],
       Log (CacheSaved 1)])"
  by code_simp

lemma scenarioA_clickable: "isClickableSelector scenarioA ''#login-button''"
  by code_simp

text \<open>
  Claim C1. Whenever \<open>healSelector\<close> returns a selector, for any broken locator, snapshot,
  options, cache file, environment and remote service, that selector is clickable in the
  snapshot of the same call. The statement does not ask which stage the selector came from:
  it holds for the cache, the heuristic and the remote suggestion alike.
\<close>

theorem healSelector_clickable:
  "healSelector load env service now d failedSelector htmlSnapshot opts = (Inr (Some sel), d', tr)
   \<Longrightarrow> isClickableSelector (load htmlSnapshot) sel"
  by (auto simp: healSelector_def Let_def
      split: if_splits prod.splits property.splits sum.splits
      dest: heuristicStage_clickable)

theorem healSelector_clickable_witness:
  "fst (healSelector (\<lambda>html. scenarioA) noEnv unreachable stamp freshDisk
          ''#login-button-invalid'' ''<html>'' noOptions) = Inr (Some ''#login-button'')
   \<and> isClickableSelector scenarioA ''#login-button''"
  using healSelector_clickable [OF scenarioA_run] by (simp add: scenarioA_run)

section \<open>A cache hit ends the call\<close>

text \<open>
  Claim C2. When the cache file holds an entry for the broken locator and the entry's selector
  is clickable in the current snapshot, \<open>healSelector\<close> returns that selector, leaves the
  cache file as it was, and all it does is print the line about the cached selector: the
  heuristic is not started, no request is posted and nothing is written.
\<close>

theorem cache_hit_returns_at_once:
  "cacheFile d = Json obj \<Longrightarrow> map_of obj failedSelector = Some e \<Longrightarrow>
   isClickableSelector (load htmlSnapshot) (healed e) \<Longrightarrow>
   healSelector load env service now d failedSelector htmlSnapshot opts
     = (Inr (Some (healed e)), d, [Log (UsingCached (healed e))])"
  by (simp add: healSelector_def getHealed_def readFile_def getProp_def Let_def)

theorem cache_hit_returns_at_once_witness:
  "healSelector (\<lambda>html. scenarioA) disabledEnv secondThoughts stamp healedDisk
     ''#login-button-invalid'' ''<html>'' noOptions
   = (Inr (Some ''#login-button''), healedDisk, [Log (UsingCached ''#login-button'')])"
  using cache_hit_returns_at_once [of healedDisk
      "[(''#login-button-invalid'',
         \<lparr>healed = ''#login-button'', source = FromHeuristic, ts = stamp\<rparr>)]"
      "''#login-button-invalid''"
      "\<lparr>healed = ''#login-button'', source = FromHeuristic, ts = stamp\<rparr>"
      "\<lambda>html. scenarioA" "''<html>''" disabledEnv secondThoughts stamp noOptions]
  by (simp add: healedDisk_def scenarioA_clickable)

section \<open>Rate limiting\<close>

lemma requests_simps [simp]:
  "requests [] = 0"
  "requests (HttpPost m p # tr) = Suc (requests tr)"
  "requests (Log msg # tr) = requests tr"
  "requests (Warn msg # tr) = requests tr"
  "requests (Sleep ms # tr) = requests tr"
  "requests (WriteFileSync obj # tr) = requests tr"
  "requests (tr @ tr') = requests tr + requests tr'"
  by (simp_all add: requests_def)

lemma sleeps_simps [simp]:
  "sleeps [] = []"
  "sleeps (HttpPost m p # tr) = sleeps tr"
  "sleeps (Log msg # tr) = sleeps tr"
  "sleeps (Warn msg # tr) = sleeps tr"
  "sleeps (Sleep ms # tr) = ms # sleeps tr"
  "sleeps (WriteFileSync obj # tr) = sleeps tr"
  "sleeps (tr @ tr') = sleeps tr @ sleeps tr'"
  by (simp_all add: sleeps_def)

text \<open>
  The loop under rate limiting, from any attempt on: every attempt but the last posts, warns
  and sleeps; the last one posts and gives up.
\<close>

lemma aiLoop_all_429:
  assumes "\<forall>j. a \<le> j \<and> int j \<le> maxR \<longrightarrow> service j = Failure (Some 429)"
    and "int a \<le> maxR" and "k = nat (maxR - int a)"
  shows "aiLoop dollar service m p maxR a d
    = (None, concat (map (rateLimitedRound m p maxR a d) [0..<k])
             @ [HttpPost m p, Warn AIHealingFailed])"
  using assms
proof (induction k arbitrary: a d)
  case 0
  then have "int a = maxR" by simp
  with 0 show ?case by (subst aiLoop.simps) simp
next
  case (Suc k)
  then have lt: "int a < maxR" by linarith
  have s: "service a = Failure (Some 429)" using Suc.prems by simp
  have p1: "\<forall>j. Suc a \<le> j \<and> int j \<le> maxR \<longrightarrow> service j = Failure (Some 429)"
    using Suc.prems by auto
  have p2: "int (Suc a) \<le> maxR" using lt by simp
  have p3: "k = nat (maxR - int (Suc a))" using Suc.prems by simp
  note ih = Suc.IH [OF p1 p2 p3]
  have "map (rateLimitedRound m p maxR a d) [Suc 0..<Suc k]
     = map (rateLimitedRound m p maxR a d \<circ> Suc) [0..<k]"
    by (simp add: map_Suc_upt [symmetric] del: upt_Suc)
  moreover have "rateLimitedRound m p maxR a d \<circ> Suc = rateLimitedRound m p maxR (Suc a) (d * 2)"
    by (simp add: fun_eq_iff rateLimitedRound_def)
  ultimately have shift: "map (rateLimitedRound m p maxR (Suc a) (d * 2)) [0..<k]
     = map (rateLimitedRound m p maxR a d) [Suc 0..<Suc k]"
    by simp
  have step: "aiLoop dollar service m p maxR a d
     = apsnd (\<lambda>tr. rateLimitedRound m p maxR a d 0 @ tr)
         (aiLoop dollar service m p maxR (Suc a) (d * 2))"
    using lt s by (subst aiLoop.simps) (simp add: rateLimitedRound_def)
  show ?case
    unfolding step ih shift by (simp add: upt_conv_Cons del: upt_Suc)
qed

lemma requests_rounds: "requests (concat (map (rateLimitedRound m p maxR a d) [0..<k])) = k"
  by (induction k) (simp_all add: rateLimitedRound_def)

lemma sleeps_rounds:
  "sleeps (concat (map (rateLimitedRound m p maxR a d) [0..<k])) = map (\<lambda>i. d * 2 ^ i) [0..<k]"
  by (induction k) (simp_all add: rateLimitedRound_def)

text \<open>
  Claim C3. If every request of one AI stage is answered by a rate limit (429), the stage
  returns none, it posts exactly \<open>maxAIRetries\<close> requests (none when that number is not
  positive), and the delays it sleeps for are \<open>backoffMs\<close>, \<open>2 * backoffMs\<close>,
  \<open>4 * backoffMs\<close> and so on, one after each request but the last. The last conjunct gives
  the whole run: request, warning, sleep, in turn, and a last request with its warning.
\<close>

theorem rate_limited_retries:
  assumes "\<forall>a. 1 \<le> a \<and> int a \<le> maxR \<longrightarrow> service a = Failure (Some 429)"
  shows "fst (aiHeal dollar service failedSelector htmlSnapshot m maxR backoff) = None
    \<and> requests (snd (aiHeal dollar service failedSelector htmlSnapshot m maxR backoff)) = nat maxR
    \<and> sleeps (snd (aiHeal dollar service failedSelector htmlSnapshot m maxR backoff))
        = map (\<lambda>i. backoff * 2 ^ i) [0..<nat maxR - 1]
    \<and> snd (aiHeal dollar service failedSelector htmlSnapshot m maxR backoff)
        = (if 1 \<le> maxR
           then concat (map (rateLimitedRound m (buildAIPrompt failedSelector htmlSnapshot)
                               maxR 1 backoff) [0..<nat maxR - 1])
                @ [HttpPost m (buildAIPrompt failedSelector htmlSnapshot), Warn AIHealingFailed]
           else [])"
proof (cases "1 \<le> maxR")
  case True
  have k: "nat maxR - 1 = nat (maxR - int 1)" by simp
  have "aiHeal dollar service failedSelector htmlSnapshot m maxR backoff
    = (None, concat (map (rateLimitedRound m (buildAIPrompt failedSelector htmlSnapshot)
                            maxR 1 backoff) [0..<nat maxR - 1])
             @ [HttpPost m (buildAIPrompt failedSelector htmlSnapshot), Warn AIHealingFailed])"
    unfolding aiHeal_def using assms True k by (intro aiLoop_all_429) auto
  with True show ?thesis by (simp add: requests_rounds sleeps_rounds)
next
  case False
  then have "aiHeal dollar service failedSelector htmlSnapshot m maxR backoff = (None, [])"
    unfolding aiHeal_def by (subst aiLoop.simps) simp
  with False show ?thesis by simp
qed

theorem rate_limited_retries_witness:
  "fst (aiHeal emptyPage rateLimited ''#login-button-invalid'' ''<html>'' ''gpt-4o-mini'' 4 500)
     = None
   \<and> requests (snd (aiHeal emptyPage rateLimited ''#login-button-invalid'' ''<html>''
                  ''gpt-4o-mini'' 4 500)) = 4
   \<and> sleeps (snd (aiHeal emptyPage rateLimited ''#login-button-invalid'' ''<html>''
                  ''gpt-4o-mini'' 4 500)) = [500, 1000, 2000]"
proof -
  have limited: "\<forall>a. 1 \<le> a \<and> int a \<le> 4 \<longrightarrow> rateLimited a = Failure (Some 429)"
    by (simp add: rateLimited_def)
  note run = rate_limited_retries [OF limited, of emptyPage "''#login-button-invalid''"
      "''<html>''" "''gpt-4o-mini''" 500]
  have delays: "map (\<lambda>i. (500 :: int) * 2 ^ i) [0..<nat 4 - 1] = [500, 1000, 2000]"
    by code_simp
  from run have
    "fst (aiHeal emptyPage rateLimited ''#login-button-invalid'' ''<html>'' ''gpt-4o-mini'' 4 500)
       = None"
    and "requests (snd (aiHeal emptyPage rateLimited ''#login-button-invalid'' ''<html>''
                  ''gpt-4o-mini'' 4 500)) = nat 4"
    and "sleeps (snd (aiHeal emptyPage rateLimited ''#login-button-invalid'' ''<html>''
                  ''gpt-4o-mini'' 4 500)) = map (\<lambda>i. 500 * 2 ^ i) [0..<nat 4 - 1]"
    by blast+
  then show ?thesis unfolding delays by simp
qed

section \<open>What ends the remote stage, and what does not\<close>

text \<open>
  A run that reaches an attempt whose answer ends the stage: that attempt's request is the
  last one, the run slept once for each rate limit before it, and it returns none.
\<close>

lemma aiLoop_aborts:
  assumes "n = a - k" "k \<le> a" "int a \<le> maxR"
    and "\<forall>j. k \<le> j \<and> j < a \<longrightarrow> continues dollar (service j)"
    and "aborts dollar (service a)"
  shows "fst (aiLoop dollar service m p maxR k d) = None
    \<and> requests (snd (aiLoop dollar service m p maxR k d)) = Suc a - k
    \<and> length (sleeps (snd (aiLoop dollar service m p maxR k d)))
        = length (filter (\<lambda>j. service j = Failure (Some 429)) [k..<a])
    \<and> (\<exists>pre. snd (aiLoop dollar service m p maxR k d) = pre @ lastEvents m p (service a))"
  using assms
proof (induction n arbitrary: k d)
  case 0
  then have "k = a" by simp
  with 0 show ?case
    by (subst (1 2 3 4) aiLoop.simps)
       (auto simp: aborts_def lastEvents_def split: http_result.splits)
next
  case (Suc n)
  then have lt: "k < a" by simp
  then have ltm: "int k < maxR" using Suc.prems by simp
  have c: "continues dollar (service k)" using Suc.prems lt by simp
  have p1: "n = a - Suc k" using Suc.prems by simp
  have p2: "Suc k \<le> a" using lt by simp
  have p4: "\<forall>j. Suc k \<le> j \<and> j < a \<longrightarrow> continues dollar (service j)" using Suc.prems by simp
  note ih = Suc.IH [OF p1 p2 Suc.prems(3) p4 Suc.prems(5)]
  have up: "[k..<a] = k # [Suc k..<a]" using lt by (simp add: upt_conv_Cons)
  show ?case
  proof (cases "service k")
    case (Reply c')
    with c ltm ih [of d] lt show ?thesis
      by (subst (1 2 3 4) aiLoop.simps) (auto simp: continues_def up Suc_diff_le)
  next
    case (Failure st)
    with c ltm ih [of "d * 2"] lt show ?thesis
      by (subst (1 2 3 4) aiLoop.simps) (auto simp: continues_def up Suc_diff_le)
  qed
qed

text \<open>
  Claim C4, as the code has it. Let the stage reach its attempt \<open>a\<close>, and let the answer to
  that attempt be a failure whose status is not 429, or a reply that is not accepted as
  clickable and matches the container marker. Then the stage returns none, the request of
  attempt \<open>a\<close> is its last one (the run ends with it, and with the warning after a failure),
  and the stage has slept only for the rate limits before: nothing follows, neither a request
  nor a sleep. The stage reaches attempt \<open>a\<close> through rate limits and through replies that
  are neither accepted nor containers: such a reply, too, leads to the next request.
\<close>

theorem failure_ends_ai_stage:
  assumes "1 \<le> a" and "int a \<le> maxR"
    and "\<forall>j. 1 \<le> j \<and> j < a \<longrightarrow> continues dollar (service j)"
    and "aborts dollar (service a)"
  shows "fst (aiHeal dollar service failedSelector htmlSnapshot m maxR backoff) = None
    \<and> requests (snd (aiHeal dollar service failedSelector htmlSnapshot m maxR backoff)) = a
    \<and> length (sleeps (snd (aiHeal dollar service failedSelector htmlSnapshot m maxR backoff)))
        = length (filter (\<lambda>j. service j = Failure (Some 429)) [1..<a])
    \<and> (\<exists>pre. snd (aiHeal dollar service failedSelector htmlSnapshot m maxR backoff)
          = pre @ lastEvents m (buildAIPrompt failedSelector htmlSnapshot) (service a))"
  using aiLoop_aborts [of "a - 1" a 1 maxR dollar service m
      "buildAIPrompt failedSelector htmlSnapshot" backoff] assms
  by (simp add: aiHeal_def)

theorem failure_ends_ai_stage_witness:
  "fst (aiHeal scenarioA limitedThenDown ''#login-button-invalid'' ''<html>''
          ''gpt-4o-mini'' 6 500) = None
   \<and> requests (snd (aiHeal scenarioA limitedThenDown ''#login-button-invalid'' ''<html>''
                  ''gpt-4o-mini'' 6 500)) = 2
   \<and> length (sleeps (snd (aiHeal scenarioA limitedThenDown ''#login-button-invalid'' ''<html>''
                  ''gpt-4o-mini'' 6 500))) = 1"
proof -
  have up: "[1..<2] = [1]" by (simp add: upt_rec)
  have c: "\<forall>j. 1 \<le> j \<and> j < 2 \<longrightarrow> continues scenarioA (limitedThenDown j)"
    by (auto simp: continues_def limitedThenDown_def)
  have a: "aborts scenarioA (limitedThenDown 2)"
    by (simp add: aborts_def limitedThenDown_def)
  show ?thesis
    using failure_ends_ai_stage [of 2 6 scenarioA limitedThenDown "''#login-button-invalid''"
        "''<html>''" "''gpt-4o-mini''" 500, OF _ _ c a]
    by (simp add: up limitedThenDown_def)
qed

lemma clean_div: "cleanAnswer ''div'' = ''div''"
  by code_simp

lemma clean_login_button: "cleanAnswer ''#login-button'' = ''#login-button''"
  by code_simp

lemma div_not_clickable: "\<not> isClickableSelector scenarioA ''div''"
  by code_simp

lemma div_no_marker: "\<not> str_includes (toLowerCase ''div'') ''login-container''"
  by code_simp

text \<open>
  The claim as it was stated fails: the first answer below is a reply, not a rate limit, and
  a second request follows it.
\<close>

theorem reply_causes_second_request:
  "secondThoughts 1 = Reply ''div''
   \<and> aiHeal scenarioA secondThoughts ''#login-button-invalid'' ''<html>'' ''gpt-4o-mini'' 6 500
     = (Some ''#login-button'',
        [HttpPost ''gpt-4o-mini'' (buildAIPrompt ''#login-button-invalid'' ''<html>''),
         HttpPost ''gpt-4o-mini'' (buildAIPrompt ''#login-button-invalid'' ''<html>'')])"
  unfolding aiHeal_def
  by (subst aiLoop.simps,
      simp add: secondThoughts_def clean_div div_not_clickable div_no_marker,
      subst aiLoop.simps,
      simp add: secondThoughts_def clean_login_button scenarioA_clickable)

text \<open>
  An answer that is clickable is returned even though it matches the container marker: the
  check for the marker comes after the check of the answer.
\<close>

lemma clean_descendant: "cleanAnswer ''.login-container button'' = ''.login-container button''"
  by code_simp

lemma descendant_clickable: "isClickableSelector scenarioA ''.login-container button''"
  by code_simp

lemma container_answer_accepted:
  "aiHeal scenarioA descendantAnswer ''#login-button-invalid'' ''<html>'' ''gpt-4o-mini'' 6 500
     = (Some ''.login-container button'',
        [HttpPost ''gpt-4o-mini'' (buildAIPrompt ''#login-button-invalid'' ''<html>'')])"
  unfolding aiHeal_def
  by (subst aiLoop.simps)
     (simp add: descendantAnswer_def clean_descendant descendant_clickable)

section \<open>The heuristic and containers\<close>

lemma startsWith_append: "startsWith a n \<Longrightarrow> startsWith (a @ b) n"
  by (induction a n rule: startsWith.induct) auto

lemma str_includes_append: "str_includes a n \<Longrightarrow> str_includes (a @ b) n"
proof (induction a)
  case Nil
  then show ?case by (cases b) auto
next
  case (Cons h t)
  then show ?case using startsWith_append [of "h # t" n b] by auto
qed

text \<open>A candidate whose id names a container or a wrapper is one of those the loop skips.\<close>

lemma id_marker_looksContainer: "namesContainer (attr el ''id'') \<Longrightarrow> looksContainer el"
  by (auto simp: namesContainer_def looksContainer_def containsAny_def str_includes_append)

lemma buildBestSelectorFor_nonempty: "buildBestSelectorFor el \<noteq> []"
  by (auto simp: buildBestSelectorFor_def Let_def split: option.splits)

lemma pick_filter:
  "pick tokens els st = pick tokens (filter (\<lambda>el. \<not> looksContainer el) els) st"
  by (induction tokens els st rule: pick.induct) auto

lemma ex_top:
  "xs \<noteq> [] \<Longrightarrow> \<exists>m \<in> set xs. \<forall>y \<in> set xs. f y \<le> (f m :: int)"
proof (induction xs)
  case Nil
  then show ?case by simp
next
  case (Cons x xs)
  show ?case
  proof (cases "xs = []")
    case True
    then show ?thesis by simp
  next
    case False
    with Cons.IH obtain m where m: "m \<in> set xs" "\<forall>y \<in> set xs. f y \<le> f m" by blast
    show ?thesis
    proof (cases "f m \<le> f x")
      case True
      with m have "\<forall>y \<in> set (x # xs). f y \<le> f x" by auto
      then show ?thesis by auto
    next
      case False
      with m have "\<forall>y \<in> set (x # xs). f y \<le> f m" by auto
      with m(1) show ?thesis by auto
    qed
  qed
qed

text \<open>
  The loop from any state \<open>(s0, b0)\<close>: it ends with the first candidate that beats \<open>b0\<close> and
  that none of the list outscores, or as it began when there is none.
\<close>

lemma pick_kept:
  assumes "\<forall>el \<in> set kept. \<not> looksContainer el"
  shows "pick tokens kept (s0, b0)
    = (case find (\<lambda>el. beats (score tokens el) b0
                     \<and> list_all (\<lambda>other. score tokens other \<le> score tokens el) kept) kept of
         None \<Rightarrow> (s0, b0)
       | Some el \<Rightarrow> (buildBestSelectorFor el, Some (score tokens el)))"
  using assms
proof (induction kept arbitrary: s0 b0)
  case Nil
  then show ?case by simp
next
  case (Cons x kept)
  have nx: "\<not> looksContainer x" using Cons.prems by simp
  have k: "\<forall>el \<in> set kept. \<not> looksContainer el" using Cons.prems by simp
  let ?top = "\<lambda>el. list_all (\<lambda>other. score tokens other \<le> score tokens el) kept"
  show ?case
  proof (cases "beats (score tokens x) b0")
    case True
    note ih = Cons.IH [OF k, of "buildBestSelectorFor x" "Some (score tokens x)"]
    show ?thesis
    proof (cases "?top x")
      case top: True
      then have "find (\<lambda>el. beats (score tokens el) (Some (score tokens x)) \<and> ?top el) kept = None"
        by (auto simp: find_None_iff beats_def list_all_iff)
      with True top nx ih show ?thesis by simp
    next
      case nottop: False
      then have ne: "kept \<noteq> []" by auto
      from ex_top [OF ne, of "score tokens"] obtain m where
        m: "m \<in> set kept" "\<forall>y \<in> set kept. score tokens y \<le> score tokens m" by blast
      from nottop obtain y where y: "y \<in> set kept" "score tokens x < score tokens y"
        by (auto simp: list_all_iff)
      have "beats (score tokens m) (Some (score tokens x)) \<and> ?top m"
        using m y by (fastforce simp: beats_def list_all_iff)
      with m(1) have some:
        "find (\<lambda>el. beats (score tokens el) (Some (score tokens x)) \<and> ?top el) kept \<noteq> None"
        by (auto simp: find_None_iff)
      have "find (\<lambda>el. beats (score tokens el) (Some (score tokens x)) \<and> ?top el) kept
          = find (\<lambda>el. beats (score tokens el) b0
                \<and> list_all (\<lambda>other. score tokens other \<le> score tokens el) (x # kept)) kept"
        using True nottop
        by (intro find_cong) (auto simp: beats_def list_all_iff split: option.splits)
      with True nottop nx ih some show ?thesis by (auto split: option.splits)
    qed
  next
    case False
    note ih = Cons.IH [OF k, of s0 b0]
    have "find (\<lambda>el. beats (score tokens el) b0 \<and> ?top el) kept
        = find (\<lambda>el. beats (score tokens el) b0
              \<and> list_all (\<lambda>other. score tokens other \<le> score tokens el) (x # kept)) kept"
      using False
      by (intro find_cong) (auto simp: beats_def list_all_iff split: option.splits)
    with False nx ih show ?thesis by simp
  qed
qed

text \<open>The loop of \<open>heuristicHeal\<close> finds the highest-scoring candidate.\<close>

lemma pick_highestScoring:
  "pick tokens candidates ([], None)
    = (case highestScoring tokens candidates of
         None \<Rightarrow> ([], None)
       | Some el \<Rightarrow> (buildBestSelectorFor el, Some (score tokens el)))"
proof -
  have "pick tokens candidates ([], None)
     = pick tokens (filter (\<lambda>el. \<not> looksContainer el) candidates) ([], None)"
    by (rule pick_filter)
  also have "\<dots> = (case highestScoring tokens candidates of
         None \<Rightarrow> ([], None)
       | Some el \<Rightarrow> (buildBestSelectorFor el, Some (score tokens el)))"
    by (subst pick_kept) (simp_all add: highestScoring_def Let_def beats_def)
  finally show ?thesis .
qed

lemma highestScoring_kept:
  assumes "highestScoring tokens candidates = Some el"
  shows "el \<in> set candidates \<and> \<not> looksContainer el
     \<and> (\<forall>other \<in> set candidates.
           \<not> looksContainer other \<longrightarrow> score tokens other \<le> score tokens el)"
proof -
  let ?kept = "filter (\<lambda>el. \<not> looksContainer el) candidates"
  from assms obtain i where i: "i < length ?kept" "el = ?kept ! i"
    and top: "list_all (\<lambda>other. score tokens other \<le> score tokens el) ?kept"
    by (auto simp: highestScoring_def Let_def find_Some_iff)
  from i have "el \<in> set ?kept" by (metis nth_mem)
  with top show ?thesis by (auto simp: list_all_iff)
qed

text \<open>Without its data-test an element has the other attributes it had.\<close>

lemma map_of_without:
  "map_of (filter (\<lambda>kv. fst kv \<noteq> k) xs) k' = (if k' = k then None else map_of xs k')"
  by (induction xs) auto

lemma attr_withoutAttr: "attr (withoutAttr k el) k' = (if k' = k then [] else attr el k')"
  by (simp add: attr_def withoutAttr_def map_of_without)

lemma looksContainer_without_data_test:
  "looksContainer (withoutAttr ''data-test'' el) = looksContainer el"
  by (simp add: looksContainer_def attr_withoutAttr)

lemma name_withoutAttr: "el_name (withoutAttr k el) = el_name el"
  by (simp add: withoutAttr_def)

lemma selector_without_data_test:
  assumes "namesContainer (attr el ''data-test'')"
  shows "buildBestSelectorFor (withoutAttr ''data-test'' el) = buildBestSelectorFor el"
proof -
  have a: "attr (withoutAttr ''data-test'' el) ''id'' = attr el ''id''"
    "attr (withoutAttr ''data-test'' el) ''data-test'' = []"
    "attr (withoutAttr ''data-test'' el) ''data-testid'' = attr el ''data-testid''"
    "attr (withoutAttr ''data-test'' el) ''name'' = attr el ''name''"
    "attr (withoutAttr ''data-test'' el) ''aria-label'' = attr el ''aria-label''"
    "attr (withoutAttr ''data-test'' el) ''class'' = attr el ''class''"
    by (simp_all add: attr_withoutAttr)
  show ?thesis
    unfolding buildBestSelectorFor_def a name_withoutAttr using assms by (simp add: Let_def)
qed

text \<open>
  Claim C5, as the code has it. When cheerio answers the six candidate selectors, the
  heuristic returns the selector synthesized for the highest-scoring candidate among those it
  does not skip, or none when that selector matches the container/wrapper pattern or when no
  candidate is left. A candidate whose id contains \<open>container\<close> or \<open>wrapper\<close> is skipped: it is
  never the highest-scoring candidate, however it would score. A candidate whose data-test
  contains a marker is skipped no more than without its data-test, and its selector is the
  one it would have without its data-test.
\<close>

theorem heuristic_returns_best_or_none:
  assumes "gather dollar clickableSelectors = Inr candidates"
  shows "heuristicHeal dollar failedSelector
      = ((case highestScoring (extractTokens failedSelector) candidates of
            None \<Rightarrow> Inr None
          | Some el \<Rightarrow>
              if containerGuard True (buildBestSelectorFor el) then Inr None
              else Inr (Some (buildBestSelectorFor el))),
         [Log (HeuristicTokens (extractTokens failedSelector))])
    \<and> (\<forall>el. highestScoring (extractTokens failedSelector) candidates = Some el
          \<longrightarrow> el \<in> set candidates \<and> \<not> namesContainer (attr el ''id'')
              \<and> \<not> looksContainer el
              \<and> (\<forall>other \<in> set candidates. \<not> looksContainer other
                    \<longrightarrow> score (extractTokens failedSelector) other
                          \<le> score (extractTokens failedSelector) el))
    \<and> (\<forall>el. namesContainer (attr el ''id'')
          \<longrightarrow> highestScoring (extractTokens failedSelector) candidates \<noteq> Some el)
    \<and> (\<forall>el. namesContainer (attr el ''data-test'')
          \<longrightarrow> looksContainer (withoutAttr ''data-test'' el) = looksContainer el
              \<and> buildBestSelectorFor (withoutAttr ''data-test'' el) = buildBestSelectorFor el)"
proof -
  have empty:
    "candidates = [] \<Longrightarrow> highestScoring (extractTokens failedSelector) candidates = None"
    by (simp add: highestScoring_def)
  have run: "heuristicHeal dollar failedSelector
      = ((case highestScoring (extractTokens failedSelector) candidates of
            None \<Rightarrow> Inr None
          | Some el \<Rightarrow>
              if containerGuard True (buildBestSelectorFor el) then Inr None
              else Inr (Some (buildBestSelectorFor el))),
         [Log (HeuristicTokens (extractTokens failedSelector))])"
    using assms empty
    by (auto simp: heuristicHeal_def Let_def pick_highestScoring buildBestSelectorFor_nonempty
        split: option.splits simp del: pick.simps)
  have kept: "\<forall>el. highestScoring (extractTokens failedSelector) candidates = Some el
          \<longrightarrow> el \<in> set candidates \<and> \<not> namesContainer (attr el ''id'')
              \<and> \<not> looksContainer el
              \<and> (\<forall>other \<in> set candidates. \<not> looksContainer other
                    \<longrightarrow> score (extractTokens failedSelector) other
                          \<le> score (extractTokens failedSelector) el)"
    using highestScoring_kept id_marker_looksContainer by blast
  then have skipped: "\<forall>el. namesContainer (attr el ''id'')
          \<longrightarrow> highestScoring (extractTokens failedSelector) candidates \<noteq> Some el"
    by blast
  have dt: "\<forall>el. namesContainer (attr el ''data-test'')
          \<longrightarrow> looksContainer (withoutAttr ''data-test'' el) = looksContainer el
              \<and> buildBestSelectorFor (withoutAttr ''data-test'' el) = buildBestSelectorFor el"
    by (simp add: looksContainer_without_data_test selector_without_data_test)
  from run kept skipped dt show ?thesis by (intro conjI)
qed

text \<open>
  A page on which the candidate with \<open>wrapper\<close> in its id would score highest, 132 against
  16: the selector returned is that of the other button. And the page whose only button has
  the selector \<open>[data-testid="wrapper"]\<close>: it matches the pattern, and none is returned.
\<close>

lemma gather_rivalPage: "gather rivalPage clickableSelectors = Inr [rivalWrapper, submitButton]"
  by code_simp

lemma rival_scores:
  "score (extractTokens ''#login-button-invalid'') rivalWrapper = 132"
  "score (extractTokens ''#login-button-invalid'') submitButton = 16"
  by code_simp+

lemma rival_marker: "namesContainer (attr rivalWrapper ''id'')"
  by code_simp

lemma rival_best:
  "highestScoring (extractTokens ''#login-button-invalid'') [rivalWrapper, submitButton]
     = Some submitButton"
  by code_simp

lemma submit_selector:
  "buildBestSelectorFor submitButton = ''#submit''"
  "\<not> containerGuard True ''#submit''"
  by code_simp+

lemma gather_guardedPage: "gather guardedPage clickableSelectors = Inr [guardedButton]"
  by code_simp

lemma guarded_best:
  "highestScoring (extractTokens ''#submit'') [guardedButton] = Some guardedButton"
  by code_simp

lemma guarded_selector: "containerGuard True (buildBestSelectorFor guardedButton)"
  by code_simp

lemma wrapperButton_marker: "namesContainer (attr wrapperButton ''data-test'')"
  by code_simp

lemma wrapperButton_selector: "buildBestSelectorFor wrapperButton = ''#go''"
  by code_simp

theorem heuristic_returns_best_or_none_witness:
  "gather rivalPage clickableSelectors = Inr [rivalWrapper, submitButton]
   \<and> namesContainer (attr rivalWrapper ''id'')
   \<and> score (extractTokens ''#login-button-invalid'') submitButton
       < score (extractTokens ''#login-button-invalid'') rivalWrapper
   \<and> highestScoring (extractTokens ''#login-button-invalid'') [rivalWrapper, submitButton]
       = Some submitButton
   \<and> fst (heuristicHeal rivalPage ''#login-button-invalid'') = Inr (Some ''#submit'')
   \<and> gather guardedPage clickableSelectors = Inr [guardedButton]
   \<and> containerGuard True (buildBestSelectorFor guardedButton)
   \<and> fst (heuristicHeal guardedPage ''#submit'') = Inr None
   \<and> namesContainer (attr wrapperButton ''data-test'')
   \<and> buildBestSelectorFor (withoutAttr ''data-test'' wrapperButton) = ''#go''"
proof -
  note rival = heuristic_returns_best_or_none [OF gather_rivalPage, of "''#login-button-invalid''"]
  note guarded = heuristic_returns_best_or_none [OF gather_guardedPage, of "''#submit''"]
  have r: "fst (heuristicHeal rivalPage ''#login-button-invalid'') = Inr (Some ''#submit'')"
    unfolding rival [THEN conjunct1] rival_best
    by (simp add: submit_selector del: containerGuard.simps)
  have g: "fst (heuristicHeal guardedPage ''#submit'') = Inr None"
    unfolding guarded [THEN conjunct1] guarded_best
    by (simp add: guarded_selector del: containerGuard.simps)
  have "\<forall>el. namesContainer (attr el ''data-test'')
          \<longrightarrow> looksContainer (withoutAttr ''data-test'' el) = looksContainer el
              \<and> buildBestSelectorFor (withoutAttr ''data-test'' el) = buildBestSelectorFor el"
    using rival by (elim conjE)
  with wrapperButton_marker have
    "buildBestSelectorFor (withoutAttr ''data-test'' wrapperButton)
       = buildBestSelectorFor wrapperButton"
    by blast
  then have w: "buildBestSelectorFor (withoutAttr ''data-test'' wrapperButton) = ''#go''"
    by (simp only: wrapperButton_selector)
  have lt: "score (extractTokens ''#login-button-invalid'') submitButton
       < score (extractTokens ''#login-button-invalid'') rivalWrapper"
    by (simp add: rival_scores)
  from gather_rivalPage rival_marker lt rival_best r gather_guardedPage guarded_selector g
    wrapperButton_marker w
  show ?thesis by (intro conjI)
qed

text \<open>
  The claim as it was stated fails for data-test: the only button of the page below has
  \<open>wrapper\<close> in its data-test, and the heuristic returns the selector synthesized for it.
\<close>

theorem data_test_wrapper_returned:
  "containsAny (toLowerCase (attr wrapperButton ''data-test'')) [''container'', ''wrapper'']
   \<and> buildBestSelectorFor wrapperButton = ''#go''
   \<and> gather wrapperPage clickableSelectors = Inr [wrapperButton]
   \<and> fst (heuristicHeal wrapperPage ''#submit'') = Inr (Some ''#go'')"
  by code_simp

text \<open>
  Skipping a candidate does not keep its selector from being returned for another: on the
  page below the first button has \<open>wrapper\<close> in its id and is skipped, and the selector
  returned for the second button, the bare tag, is also the one synthesized for the first.
\<close>

lemma skipped_selector_can_coincide:
  "namesContainer (attr valueWrapper ''id'')
   \<and> buildBestSelectorFor valueWrapper = ''button''
   \<and> gather twoButtons clickableSelectors = Inr [valueWrapper, plainButton]
   \<and> fst (heuristicHeal twoButtons ''#login-submit'') = Inr (Some ''button'')"
  by code_simp

section \<open>Scenario A\<close>

lemma tokens_login_button_invalid:
  "extractTokens ''#login-button-invalid'' = [''login'', ''button'', ''invalid'']"
  by code_simp

lemma pick_loginButton:
  "pick [''login'', ''button'', ''invalid''] [loginButton] ([], None)
     = (''#login-button'', Some 214)"
  by code_simp

lemma guard_login_button: "containerGuard True ''#login-button'' = False"
  by code_simp

lemma tag_loginButton: "el_type loginButton = TagNode"
  by (simp add: loginButton_def)

text \<open>
  Claim C6. For the broken locator \<open>#login-button-invalid\<close> and the snapshot of scenario A
  the heuristic returns \<open>#login-button\<close>. The snapshot enters through cheerio's answers:
  \<open>button\<close> matches the button with id and data-test \<open>login-button\<close> and the text \<open>Login\<close>, and
  the five other candidate selectors match nothing (the \<open>div\<close> is no candidate).
\<close>

theorem scenario_A_heals_login_button:
  assumes "dollar ''button'' = Some [loginButton]"
    and "\<forall>sel \<in> set (tl clickableSelectors). dollar sel = Some []"
  shows "heuristicHeal dollar ''#login-button-invalid''
    = (Inr (Some ''#login-button''),
       [Log (HeuristicTokens [''login'', ''button'', ''invalid''])])"
proof -
  have "gather dollar clickableSelectors = Inr [loginButton]"
    using assms by (simp add: clickableSelectors_def tag_loginButton)
  then show ?thesis
    by (simp add: heuristicHeal_def Let_def tokens_login_button_invalid pick_loginButton
        guard_login_button del: pick.simps containerGuard.simps)
qed

theorem scenario_A_heals_login_button_witness:
  "scenarioA ''button'' = Some [loginButton]
   \<and> list_all (\<lambda>sel. scenarioA sel = Some []) (tl clickableSelectors)
   \<and> heuristicHeal scenarioA ''#login-button-invalid''
     = (Inr (Some ''#login-button''),
        [Log (HeuristicTokens [''login'', ''button'', ''invalid''])])"
proof -
  have b: "scenarioA ''button'' = Some [loginButton]"
    by (simp add: scenarioA_def)
  have r: "list_all (\<lambda>sel. scenarioA sel = Some []) (tl clickableSelectors)"
    by code_simp
  then have "\<forall>sel \<in> set (tl clickableSelectors). scenarioA sel = Some []"
    by (simp add: list_all_iff)
  from scenario_A_heals_login_button [OF b this] b r show ?thesis by simp
qed

section \<open>The environment\<close>

text \<open>
  \<open>healSelector\<close> reads two variables of the environment, \<open>OPENAI_MODEL\<close> and
  \<open>OPENAI_API_KEY\<close>. Whatever \<open>AI_DISABLED\<close> is set to, the call is the same.
\<close>

lemma hasKey_switch: "hasKey (env(''AI_DISABLED'' := v)) = hasKey env"
  by (simp add: hasKey_def)

lemma defaultModel_switch: "defaultModel (env(''AI_DISABLED'' := v)) = defaultModel env"
  by (simp add: defaultModel_def)

lemma aiStage_switch:
  "aiStage dollar (env(''AI_DISABLED'' := v)) service now d failedSelector htmlSnapshot opts
     = aiStage dollar env service now d failedSelector htmlSnapshot opts"
  unfolding aiStage_def hasKey_switch defaultModel_switch by (rule refl)

lemma heuristicStage_switch:
  "heuristicStage dollar (env(''AI_DISABLED'' := v)) service now d failedSelector htmlSnapshot opts
     = heuristicStage dollar env service now d failedSelector htmlSnapshot opts"
  unfolding heuristicStage_def aiStage_switch by (rule refl)

lemma AI_DISABLED_not_read:
  "healSelector load (env(''AI_DISABLED'' := v)) service now d failedSelector htmlSnapshot opts
     = healSelector load env service now d failedSelector htmlSnapshot opts"
  unfolding healSelector_def heuristicStage_switch by (rule refl)

lemma emptyPage_heuristic:
  "heuristicHeal emptyPage ''#login-button-invalid''
     = (Inr None, [Log (HeuristicTokens [''login'', ''button'', ''invalid''])])"
  by code_simp

lemma unreachable_aiHeal:
  "aiHeal dollar unreachable failedSelector htmlSnapshot m 6 backoff
     = (None, [HttpPost m (buildAIPrompt failedSelector htmlSnapshot), Warn AIHealingFailed])"
  unfolding aiHeal_def by (subst aiLoop.simps) (simp add: unreachable_def)

lemma disabledEnv_reads:
  "hasKey disabledEnv" "defaultModel disabledEnv = ''gpt-4o-mini''"
  "disabledEnv ''AI_DISABLED'' = Some ''true''"
  by (simp_all add: hasKey_def defaultModel_def disabledEnv_def)

lemma freshDisk_miss: "getHealed freshDisk ''#login-button-invalid'' = (Inr Undefined, [])"
  by code_simp

text \<open>
  Claim C7 at an input where the code does otherwise: \<open>AI_DISABLED\<close> is set to \<open>true\<close>, a
  credential is configured, the options leave \<open>allowAI\<close> at its default, the cache is empty
  and the page has no candidate. The call posts a request to the remote service.
\<close>

theorem request_despite_AI_DISABLED:
  "disabledEnv ''AI_DISABLED'' = Some ''true''
   \<and> healSelector (\<lambda>html. emptyPage) disabledEnv unreachable stamp freshDisk
        ''#login-button-invalid'' ''<html>'' noOptions
     = (Inr None, freshDisk,
        [Log (TryingHeuristic ''#login-button-invalid''),
         Log (HeuristicTokens [''login'', ''button'', ''invalid'']),
         Log HeuristicFailed,
         Log (FallingBackToAI ''#login-button-invalid''),
         HttpPost ''gpt-4o-mini'' (buildAIPrompt ''#login-button-invalid'' ''<html>''),
         Warn AIHealingFailed,
         Warn AIFallbackFailed,
         Warn (FailedToHeal ''#login-button-invalid'')])"
  by (simp add: healSelector_def heuristicStage_def aiStage_def noOptions_def freshDisk_miss
      emptyPage_heuristic unreachable_aiHeal disabledEnv_reads)

section \<open>Failures of the cache file\<close>

text \<open>
  Claim C8 at an input where the code does otherwise: a cache file whose text is \<open>null\<close>.
  \<open>JSON.parse\<close> accepts it, \<open>readFile\<close> returns \<open>null\<close> without a warning, and the property
  access in \<open>getHealed\<close> and the assignment in \<open>setHealed\<close> throw. \<open>healSelector\<close> is left by
  the exception before any stage has run: the caller gets no selector and no diagnostic, on a
  page that the heuristic would heal.
\<close>

theorem null_cache_file_throws:
  "readFile nullDisk = (NullValue, [])
   \<and> getHealed nullDisk ''#login-button-invalid'' = (Inl TypeError, [])
   \<and> setHealed stamp nullDisk ''#login-button-invalid'' ''#login-button'' FromHeuristic
       = (nullDisk, [], Some TypeError)
   \<and> healSelector (\<lambda>html. scenarioA) noEnv unreachable stamp nullDisk
        ''#login-button-invalid'' ''<html>'' noOptions
       = (Inl TypeError, nullDisk, [])"
  by (simp add: healSelector_def getHealed_def setHealed_def readFile_def nullDisk_def)

text \<open>
  The failures that the code does absorb. A cache file that is missing, cannot be read, is
  blank or is rejected by \<open>JSON.parse\<close> reads as the empty object, with at most the warning
  about the read: no key has an entry, and \<open>healSelector\<close> goes on to the stages after the
  cache.
\<close>

lemma unreadable_file_reads_empty:
  assumes "cacheFile d \<in> {NoFile, ReadFails, BlankText, BadJson}"
  shows "fst (readFile d) = ObjectValue []"
    and "snd (readFile d) = [] \<or> snd (readFile d) = [Warn CacheReadFailed]"
    and "getHealed d broken = (Inr (getProp [] broken), snd (readFile d))"
    and "\<forall>e. fst (getHealed d broken) \<noteq> Inr (Own e)"
    and "healSelector load env service now d broken htmlSnapshot opts
          = (case heuristicStage (load htmlSnapshot) env service now d broken htmlSnapshot opts of
               (r, d', tr) \<Rightarrow> (r, d', snd (readFile d) @ tr))"
proof -
  from assms show "fst (readFile d) = ObjectValue []"
    and "snd (readFile d) = [] \<or> snd (readFile d) = [Warn CacheReadFailed]"
    by (auto simp: readFile_def)
  from assms show g: "getHealed d broken = (Inr (getProp [] broken), snd (readFile d))"
    by (auto simp: getHealed_def readFile_def)
  then show "\<forall>e. fst (getHealed d broken) \<noteq> Inr (Own e)"
    by (simp add: getProp_def)
  from g show "healSelector load env service now d broken htmlSnapshot opts
      = (case heuristicStage (load htmlSnapshot) env service now d broken htmlSnapshot opts of
           (r, d', tr) \<Rightarrow> (r, d', snd (readFile d) @ tr))"
    by (simp add: healSelector_def getProp_def Let_def)
qed

text \<open>
  A write that fails leaves a warning and nothing else, and whether the write succeeds has
  no part in what \<open>healSelector\<close> returns.
\<close>

lemma readFile_writable: "readFile (d\<lparr>writable := w\<rparr>) = readFile d"
  by (simp add: readFile_def)

lemma getHealed_writable: "getHealed (d\<lparr>writable := w\<rparr>) broken = getHealed d broken"
  by (simp add: getHealed_def readFile_writable)

lemma setHealed_thrown_writable:
  "setHealed now (d\<lparr>writable := w\<rparr>) broken sel src = (d1, t1, e1) \<Longrightarrow>
   setHealed now d broken sel src = (d2, t2, e2) \<Longrightarrow> e1 = e2"
  by (auto simp: setHealed_def readFile_writable split: prod.splits db_value.splits)

lemma failed_write_is_absorbed:
  assumes "\<not> writable d"
  shows "writeFile d obj = (d, [WriteFileSync obj, Warn CacheWriteFailed])"
    and "readFile d = (ObjectValue db, tr) \<Longrightarrow>
         setHealed now d broken sel src
           = (d, tr @ [WriteFileSync (setProp db broken \<lparr>healed = sel, source = src, ts = now\<rparr>),
                       Warn CacheWriteFailed], None)"
  using assms by (simp_all add: setHealed_def writeFile_def)

lemma aiStage_result_writable:
  "fst (aiStage dollar env service now (d\<lparr>writable := w\<rparr>) failedSelector htmlSnapshot opts)
     = fst (aiStage dollar env service now d failedSelector htmlSnapshot opts)"
  by (auto simp: aiStage_def Let_def split: prod.splits option.splits
      dest: setHealed_thrown_writable)

lemma heuristicStage_result_writable:
  "fst (heuristicStage dollar env service now (d\<lparr>writable := w\<rparr>) failedSelector htmlSnapshot opts)
     = fst (heuristicStage dollar env service now d failedSelector htmlSnapshot opts)"
  using aiStage_result_writable [where dollar = dollar and env = env and service = service
      and now = now and d = d and w = w and failedSelector = failedSelector
      and htmlSnapshot = htmlSnapshot and opts = opts]
  by (auto simp: heuristicStage_def Let_def split: prod.splits option.splits sum.splits
      dest: setHealed_thrown_writable)

lemma healSelector_result_writable:
  "fst (healSelector load env service now (d\<lparr>writable := w\<rparr>) failedSelector htmlSnapshot opts)
     = fst (healSelector load env service now d failedSelector htmlSnapshot opts)"
  using heuristicStage_result_writable [where dollar = "load htmlSnapshot" and env = env
      and service = service and now = now and d = d and w = w
      and failedSelector = failedSelector and htmlSnapshot = htmlSnapshot and opts = opts]
  by (auto simp: healSelector_def getHealed_writable Let_def
      split: prod.splits property.splits sum.splits)

text \<open>Scenario A with a cache file that neither parses nor can be written.\<close>

lemma brokenDisk_run:
  "healSelector (\<lambda>html. scenarioA) noEnv unreachable stamp brokenDisk
        ''#login-button-invalid'' ''<html>'' noOptions
     = (Inr (Some ''#login-button''), brokenDisk,
        [Warn CacheReadFailed,
         Log (TryingHeuristic ''#login-button-invalid''),
         Log (HeuristicTokens [''login'', ''button'', ''invalid'']),
         Log (HeuristicFound ''#login-button''),
         Warn CacheReadFailed,
         WriteFileSync [(''#login-button-invalid'',
           \<lparr>healed = ''#login-button'', source = FromHeuristic, ts = stamp\<rparr>)],
         Warn CacheWriteFailed])"
  by code_simp

section \<open>Writing and reading back\<close>

lemma map_of_setProp_other:
  "k \<noteq> broken \<Longrightarrow> map_of (setProp obj broken v) k = map_of obj k"
  by (simp add: setProp_def update_conv')

text \<open>
  Written and read back from a cache file that can be written, an entry comes back as it
  was written, for every key but \<open>__proto__\<close> (and for that key too when the file already
  has it as a key).
\<close>

lemma set_then_get:
  assumes "writable d" and "readFile d = (ObjectValue db, tr)"
    and "broken \<noteq> ''__proto__'' \<or> map_of db broken \<noteq> None"
  shows "fst (getHealed (fst (setHealed now d broken sel src)) broken)
    = Inr (Own \<lparr>healed = sel, source = src, ts = now\<rparr>)"
  using assms
  by (auto simp: getHealed_def setHealed_def writeFile_def readFile_def getProp_def setProp_def
      update_conv')

text \<open>
  Claim C9 at an input where the code does otherwise: the broken locator \<open>__proto__\<close>, written
  to an empty cache. The assignment \<open>db[broken] = ...\<close> sets the prototype of \<open>db\<close>, the file
  is written without the entry, and reading the locator back gives \<open>Object.prototype\<close>, which
  has neither the selector nor the origin.
\<close>

theorem proto_entry_is_lost:
  "setHealed stamp freshDisk ''__proto__'' ''#login-button'' FromHeuristic
     = (\<lparr>cacheFile = Json [], writable = True\<rparr>, [WriteFileSync [], Log (CacheSaved 0)], None)
   \<and> getHealed \<lparr>cacheFile = Json [], writable = True\<rparr> ''__proto__'' = (Inr Inherited, [])"
  by code_simp

section \<open>A write keeps the other entries\<close>

text \<open>
  Claim C10. When the cache file parses, \<open>setHealed\<close> for one broken locator leaves the file,
  as before, a file that parses, and every other key reads as it did: the same entry, or none.
\<close>

theorem setHealed_keeps_other_entries:
  assumes "cacheFile d = Json obj" and "k \<noteq> broken"
  shows "(\<exists>obj'. cacheFile (fst (setHealed now d broken sel src)) = Json obj'
            \<and> map_of obj' k = map_of obj k)
    \<and> fst (getHealed (fst (setHealed now d broken sel src)) k) = fst (getHealed d k)
    \<and> fst (getHealed d k) = Inr (getProp obj k)"
  using assms
  by (auto simp: setHealed_def writeFile_def readFile_def getHealed_def getProp_def
      map_of_setProp_other split: prod.splits)

theorem setHealed_keeps_other_entries_witness:
  "cacheFile healedDisk = Json [(''#login-button-invalid'',
       \<lparr>healed = ''#login-button'', source = FromHeuristic, ts = stamp\<rparr>)]
   \<and> cacheFile (fst (setHealed stamp healedDisk ''#user'' ''#user-name'' FromAI))
       = Json [(''#login-button-invalid'',
                 \<lparr>healed = ''#login-button'', source = FromHeuristic, ts = stamp\<rparr>),
               (''#user'', \<lparr>healed = ''#user-name'', source = FromAI, ts = stamp\<rparr>)]
   \<and> fst (getHealed (fst (setHealed stamp healedDisk ''#user'' ''#user-name'' FromAI))
          ''#login-button-invalid'')
       = Inr (Own \<lparr>healed = ''#login-button'', source = FromHeuristic, ts = stamp\<rparr>)"
proof -
  have f: "cacheFile healedDisk = Json [(''#login-button-invalid'',
       \<lparr>healed = ''#login-button'', source = FromHeuristic, ts = stamp\<rparr>)]"
    by (simp add: healedDisk_def)
  have n: "''#login-button-invalid'' \<noteq> ''#user''" by simp
  have w: "cacheFile (fst (setHealed stamp healedDisk ''#user'' ''#user-name'' FromAI))
       = Json [(''#login-button-invalid'',
                 \<lparr>healed = ''#login-button'', source = FromHeuristic, ts = stamp\<rparr>),
               (''#user'', \<lparr>healed = ''#user-name'', source = FromAI, ts = stamp\<rparr>)]"
    by code_simp
  have g: "fst (getHealed healedDisk ''#login-button-invalid'')
       = Inr (Own \<lparr>healed = ''#login-button'', source = FromHeuristic, ts = stamp\<rparr>)"
    by code_simp
  from setHealed_keeps_other_entries [OF f n, of stamp "''#user-name''" FromAI] f w g
  show ?thesis by simp
qed

end
